theory Spec2Isabelle
  imports Main "HOL-Library.Sublist"
begin

section \<open>Strings of the host language\<close>

text \<open>
  A string of the program is a sequence of UTF-16 code units. The model is \<open>string\<close>
  (a list of \<open>char\<close>), each \<open>char\<close> standing for the code unit with the same number:
  the model covers the code units U+0000 to U+00FF (ASCII and Latin-1), on which the
  string methods the program calls are written out below. \<open>length\<close> is the
  \<^verbatim>\<open>.length\<close> of the source.
\<close>

definition is_word :: "char \<Rightarrow> bool" where
  \<comment> \<open>the class \<^verbatim>\<open>\w\<close> of a pattern without the flags u and i: \<^verbatim>\<open>[A-Za-z0-9_]\<close>\<close>
  "is_word c =
     (let n = (of_char c :: nat)
      in (65 \<le> n \<and> n \<le> 90) \<or> (97 \<le> n \<and> n \<le> 122) \<or> (48 \<le> n \<and> n \<le> 57) \<or> n = 95)"

definition is_white :: "char \<Rightarrow> bool" where
  \<comment> \<open>the white space and line terminators that \<^verbatim>\<open>trim\<close> strips, below U+0100:
      TAB, LF, VT, FF, CR, SPACE, NO-BREAK SPACE\<close>
  "is_white c = (let n = (of_char c :: nat) in (9 \<le> n \<and> n \<le> 13) \<or> n = 32 \<or> n = 160)"

definition toLowerCase_char :: "char \<Rightarrow> char" where
  \<comment> \<open>A to Z, and U+00C0 to U+00DE without the multiplication sign U+00D7, move up by 32\<close>
  "toLowerCase_char c =
     (let n = (of_char c :: nat)
      in if (65 \<le> n \<and> n \<le> 90) \<or> (192 \<le> n \<and> n \<le> 222 \<and> n \<noteq> 215)
         then char_of (n + 32) else c)"

definition toLowerCase :: "string \<Rightarrow> string" where
  "toLowerCase s = map toLowerCase_char s"

definition startsWith :: "string \<Rightarrow> string \<Rightarrow> bool" where
  \<comment> \<open>\<^verbatim>\<open>s.startsWith(q)\<close>\<close>
  "startsWith s q = (take (length q) s = q)"

definition startsWith_ci :: "string \<Rightarrow> string \<Rightarrow> bool" where
  \<comment> \<open>\<open>s\<close> starts with \<open>q\<close> when the case of letters is ignored\<close>
  "startsWith_ci s q = startsWith (toLowerCase s) (toLowerCase q)"

definition trim :: "string \<Rightarrow> string" where
  "trim s = rev (dropWhile is_white (rev (dropWhile is_white s)))"

fun split_on :: "char \<Rightarrow> string \<Rightarrow> string list" where
  \<comment> \<open>\<^verbatim>\<open>s.split(sep)\<close> for a separator of one code unit; the empty string gives one empty segment\<close>
  "split_on sep [] = [[]]"
| "split_on sep (c # cs) =
     (if c = sep then [] # split_on sep cs
      else (let r = split_on sep cs in (c # hd r) # tl r))"

fun join :: "char \<Rightarrow> string list \<Rightarrow> string" where
  \<comment> \<open>\<^verbatim>\<open>segs.join(sep)\<close>, the inverse of \<open>split_on\<close>; the program does not call it\<close>
  "join sep [] = []"
| "join sep [x] = x"
| "join sep (x # y # ys) = x @ sep # join sep (y # ys)"

definition array_includes :: "'a list \<Rightarrow> 'a \<Rightarrow> bool" where
  \<comment> \<open>\<^verbatim>\<open>xs.includes(x)\<close>\<close>
  "array_includes xs x = (x \<in> set xs)"

definition set_add :: "'a list \<Rightarrow> 'a \<Rightarrow> 'a list" where
  \<comment> \<open>\<^verbatim>\<open>Set.prototype.add\<close>: a Set iterates in insertion order, and adding a present value changes nothing\<close>
  "set_add s x = (if x \<in> set s then s else s @ [x])"

definition new_Set :: "'a list \<Rightarrow> 'a list" where
  \<comment> \<open>\<^verbatim>\<open>Array.from(new Set(xs))\<close>: the values of \<open>xs\<close> added one by one, listed in iteration order\<close>
  "new_Set xs = foldl set_add [] xs"

section \<open>Data model\<close>

record CodeBlockInserterSettings =
  lastUsedLanguage :: string
  additionalLanguages :: string

definition DEFAULT_SETTINGS :: CodeBlockInserterSettings where
  "DEFAULT_SETTINGS = \<lparr>lastUsedLanguage = [], additionalLanguages = []\<rparr>"

record EditorPosition =
  line :: int
  ch :: int

record EditorSuggestTriggerInfo =
  start :: EditorPosition
  end_pos :: EditorPosition
  query :: string

text \<open>
  The editor and the key-value store belong to the host. A call the program makes on them
  is recorded, in the order of the calls: \<open>ReplaceRange text from to\<close> (with \<open>to = None\<close>
  when the source passes no third argument), \<open>SetCursor pos\<close>, and \<open>SaveData s\<close> for
  \<^verbatim>\<open>this.saveData(this.settings)\<close>.
\<close>

datatype host_call =
  ReplaceRange string EditorPosition "EditorPosition option"
| SetCursor EditorPosition
| SaveData CodeBlockInserterSettings

text \<open>
  The plugin with its suggester: \<open>settings\<close> is \<^verbatim>\<open>plugin.settings\<close>, \<open>languages\<close> is
  \<^verbatim>\<open>suggester.languages\<close>, \<open>suggest_context\<close> is \<^verbatim>\<open>suggester.context\<close> (null when no
  suggestion session is open), \<open>calls\<close> the calls made on the host so far.
\<close>

record plugin_state =
  settings :: CodeBlockInserterSettings
  languages :: "string list"
  suggest_context :: "EditorSuggestTriggerInfo option"
  calls :: "host_call list"

datatype error = TypeError | LoadDataRejected

section \<open>The plugin\<close>

definition replaceRange :: "string \<Rightarrow> EditorPosition \<Rightarrow> EditorPosition option \<Rightarrow> plugin_state \<Rightarrow> plugin_state" where
  "replaceRange text p1 p2 st = st\<lparr>calls := calls st @ [ReplaceRange text p1 p2]\<rparr>"

definition setCursor :: "EditorPosition \<Rightarrow> plugin_state \<Rightarrow> plugin_state" where
  "setCursor pos st = st\<lparr>calls := calls st @ [SetCursor pos]\<rparr>"

definition saveSettings :: "plugin_state \<Rightarrow> plugin_state" where
  "saveSettings st = st\<lparr>calls := calls st @ [SaveData (settings st)]\<rparr>"

definition fence_text :: string where
  \<comment> \<open>the literal \<^verbatim>\<open>"```\n\n```"\<close>\<close>
  "fence_text = [CHR 0x60, CHR 0x60, CHR 0x60, CHR 0x0A, CHR 0x0A, CHR 0x60, CHR 0x60, CHR 0x60]"

definition editorCallback :: "EditorPosition \<Rightarrow> plugin_state \<Rightarrow> plugin_state" where
  \<comment> \<open>the command insert-code-block-custom; \<open>cursor\<close> is what \<^verbatim>\<open>editor.getCursor()\<close> returns\<close>
  "editorCallback cursor st =
     (let st1 = replaceRange fence_text cursor None st
      in setCursor \<lparr>line = line cursor, ch = ch cursor + 3\<rparr> st1)"

text \<open>
  What the store holds is JSON, and \<^verbatim>\<open>this.loadData()\<close> is typed \<^verbatim>\<open>Promise<any>\<close>: the
  value it resolves to is null when nothing is stored, and otherwise whatever the
  stored text parses to. A number is kept as its literal, since the program never
  computes with one; an object is a map from property names to values.
\<close>

datatype js_value =
  JNull
| JBool bool
| JNum string
| JStr string
| JArr "js_value list"
| JObj "string \<Rightarrow> js_value option"

type_synonym js_object = "string \<rightharpoonup> js_value"

datatype loadData_result = Rejected | Resolved js_value

definition digit_char :: "nat \<Rightarrow> char" where
  "digit_char d = char_of (48 + d)"

fun index_key :: "nat \<Rightarrow> string" where
  \<comment> \<open>the property name of an index: its decimal digits\<close>
  "index_key n =
     (if n < 10 then [digit_char n] else index_key (n div 10) @ [digit_char (n mod 10)])"

declare index_key.simps [simp del]

fun own_properties :: "js_value \<Rightarrow> js_object" where
  \<comment> \<open>the own enumerable properties \<^verbatim>\<open>Object.assign\<close> copies from a source: none for null,
      a boolean or a number; the indices for a string (one character each) and for an
      array; the properties of an object\<close>
  "own_properties JNull = Map.empty"
| "own_properties (JBool b) = Map.empty"
| "own_properties (JNum n) = Map.empty"
| "own_properties (JStr s) =
     map_of (zip (map index_key [0..<length s]) (map (\<lambda>c. JStr [c]) s))"
| "own_properties (JArr xs) = map_of (zip (map index_key [0..<length xs]) xs)"
| "own_properties (JObj m) = m"

definition Object_assign :: "js_object \<Rightarrow> js_value list \<Rightarrow> js_object" where
  \<comment> \<open>the sources in order, a later one overriding an earlier one property by property,
      whatever the value of the property is\<close>
  "Object_assign target sources = foldl (\<lambda>t src. t ++ own_properties src) target sources"

definition settings_object :: "CodeBlockInserterSettings \<Rightarrow> js_object" where
  "settings_object s =
     [''lastUsedLanguage'' \<mapsto> JStr (lastUsedLanguage s),
      ''additionalLanguages'' \<mapsto> JStr (additionalLanguages s)]"

definition loadSettings :: "loadData_result \<Rightarrow> error + js_object" where
  \<comment> \<open>the object assigned to \<^verbatim>\<open>this.settings\<close>; \<^verbatim>\<open>await\<close> throws when the promise is rejected,
      and nothing catches it\<close>
  "loadSettings r =
     (case r of
        Rejected \<Rightarrow> Inl LoadDataRejected
      | Resolved data \<Rightarrow>
          Inr (Object_assign Map.empty [JObj (settings_object DEFAULT_SETTINGS), data]))"

definition as_settings :: "js_object \<Rightarrow> CodeBlockInserterSettings option" where
  \<comment> \<open>the object as the record \<open>settings\<close> of the plugin state, which is what the interface
      \<^verbatim>\<open>CodeBlockInserterSettings\<close> declares: \<open>None\<close> when a declared field is undefined or is
      not a string\<close>
  "as_settings m =
     (case (m ''lastUsedLanguage'', m ''additionalLanguages'') of
        (Some (JStr l), Some (JStr a)) \<Rightarrow> Some \<lparr>lastUsedLanguage = l, additionalLanguages = a\<rparr>
      | _ \<Rightarrow> None)"

definition baseLanguages :: "string list" where
  "baseLanguages =
     [''javascript'', ''python'', ''java'', ''c'', ''cpp'', ''csharp'', ''ruby'', ''go'',
      ''rust'', ''swift'', ''kotlin'', ''php'', ''html'', ''css'', ''sql'', ''bash'',
      ''powershell'', ''markdown'', ''json'', ''yaml'', ''xml'', ''typescript'', ''ocaml'']"

definition parse_additional :: "string \<Rightarrow> string list" where
  \<comment> \<open>\<^verbatim>\<open>.split(",").map((lang) => lang.trim()).filter((lang) => lang.length > 0)\<close>\<close>
  "parse_additional s = filter (\<lambda>lang. length lang > 0) (map trim (split_on (CHR '','') s))"

definition updateLanguages :: "plugin_state \<Rightarrow> plugin_state" where
  "updateLanguages st =
     (let additional = parse_additional (additionalLanguages (settings st))
      in st\<lparr>languages := new_Set (additional @ baseLanguages)\<rparr>)"

text \<open>
  The pattern \<^verbatim>\<open>/```(\w*)$/\<close>. \<open>match_at s\<close> is one attempt of the matcher, at the start of
  \<open>s\<close>: the three backticks, the longest run of word characters, the end of the input.
  A shorter run cannot succeed where the longest fails, since a word character
  follows it, so backtracking adds nothing. \<open>regex_match\<close> is \<^verbatim>\<open>line.match(...)\<close>: the
  attempts at the start indices 0, 1, ... up to the length, the first success returning
  its group 1.
\<close>

definition backticks :: string where
  "backticks = [CHR 0x60, CHR 0x60, CHR 0x60]"

definition match_at :: "string \<Rightarrow> string option" where
  "match_at s =
     (if startsWith s backticks
      then (let rest = drop 3 s; g = takeWhile is_word rest
            in if drop (length g) rest = [] then Some g else None)
      else None)"

fun regex_match :: "string \<Rightarrow> string option" where
  "regex_match [] = match_at []"
| "regex_match (c # cs) =
     (case match_at (c # cs) of Some g \<Rightarrow> Some g | None \<Rightarrow> regex_match cs)"

definition onTrigger :: "EditorPosition \<Rightarrow> (int \<Rightarrow> string) \<Rightarrow> EditorSuggestTriggerInfo option" where
  \<comment> \<open>\<open>getLine\<close> is \<^verbatim>\<open>editor.getLine\<close>\<close>
  "onTrigger cursor getLine =
     (case regex_match (getLine (line cursor)) of
        Some m1 \<Rightarrow>
          Some \<lparr>start = \<lparr>line = line cursor, ch = ch cursor - int (length m1)\<rparr>,
                end_pos = cursor,
                query = m1\<rparr>
      | None \<Rightarrow> None)"

definition getSuggestions :: "EditorSuggestTriggerInfo \<Rightarrow> plugin_state \<Rightarrow> string list \<times> plugin_state" where
  \<comment> \<open>the method assigns to no field: the state comes back as it was given\<close>
  "getSuggestions ctx st =
     (let q = toLowerCase (query ctx);
          suggestions = filter (\<lambda>lang. startsWith lang q) (languages st);
          lastUsed = lastUsedLanguage (settings st)
      in if lastUsed \<noteq> [] \<and> startsWith lastUsed q \<and> array_includes suggestions lastUsed
         then (lastUsed # filter (\<lambda>lang. lang \<noteq> lastUsed) suggestions, st)
         else (suggestions, st))"

definition selectSuggestion :: "string \<Rightarrow> plugin_state \<Rightarrow> error + plugin_state" where
  \<comment> \<open>\<^verbatim>\<open>this.context!\<close> is not checked at run time: destructuring null throws\<close>
  "selectSuggestion lang st =
     (case suggest_context st of
        None \<Rightarrow> Inl TypeError
      | Some ctx \<Rightarrow>
          (let st1 = replaceRange lang (start ctx) (Some (end_pos ctx)) st;
               st2 = st1\<lparr>settings := (settings st1)\<lparr>lastUsedLanguage := lang\<rparr>\<rparr>;
               st3 = saveSettings st2;
               newCursorPos = \<lparr>line = line (end_pos ctx) + 1, ch = 0\<rparr>
           in Inr (setCursor newCursorPos st3)))"

section \<open>Insert Code Block\<close>

text \<open>
  C8. At every cursor position (line L, column ch) the command asks the editor to insert
  the eight characters of the empty fenced block at that position, then to put the
  cursor on line L, column ch + 3. Nothing else is called, in particular no save, the
  two calls are the same whatever the settings are, and the settings, the candidate
  list and the open session are returned as they were.
\<close>

theorem editorCallback_inserts_fence:
  "calls (editorCallback cursor st) =
     calls st @ [ReplaceRange fence_text cursor None,
                 SetCursor \<lparr>line = line cursor, ch = ch cursor + 3\<rparr>]
   \<and> fence_text = ''```'' @ [CHR 0x0A, CHR 0x0A] @ ''```''
   \<and> settings (editorCallback cursor st) = settings st
   \<and> languages (editorCallback cursor st) = languages st
   \<and> suggest_context (editorCallback cursor st) = suggest_context st"
  by (simp add: editorCallback_def replaceRange_def setCursor_def fence_text_def)

section \<open>Trigger detection\<close>

lemma length_backticks: "length backticks = 3"
  by (simp add: backticks_def)

lemma match_at_iff:
  "match_at s = Some w \<longleftrightarrow> (s = backticks @ w \<and> (\<forall>c\<in>set w. is_word c))"
proof
  assume a: "match_at s = Some w"
  then have p: "take 3 s = backticks"
    by (auto simp add: match_at_def startsWith_def length_backticks split: if_splits)
  from a p have d: "dropWhile is_word (drop 3 s) = []"
    and w: "w = takeWhile is_word (drop 3 s)"
    by (auto simp add: match_at_def startsWith_def length_backticks Let_def dropWhile_eq_drop
        split: if_splits)
  from d have all: "\<forall>c\<in>set (drop 3 s). is_word c"
    by (simp add: dropWhile_eq_Nil_conv)
  then have "w = drop 3 s"
    using w by (simp add: takeWhile_eq_all_conv)
  moreover have "s = take 3 s @ drop 3 s"
    by simp
  ultimately show "s = backticks @ w \<and> (\<forall>c\<in>set w. is_word c)"
    using p all by metis
next
  assume "s = backticks @ w \<and> (\<forall>c\<in>set w. is_word c)"
  then show "match_at s = Some w"
    by (simp add: match_at_def startsWith_def length_backticks Let_def
        takeWhile_eq_all_conv[THEN iffD2])
qed

text \<open>
  An attempt fails wherever a later attempt could succeed: the third backtick of the
  later position would have to be one of the word characters of the earlier group.
\<close>

lemma match_at_no_later:
  assumes s: "s = c # pre @ backticks @ w"
  shows "match_at s = None"
proof (rule ccontr)
  assume "match_at s \<noteq> None"
  then obtain w' where "match_at s = Some w'"
    by auto
  then have s': "s = backticks @ w'" and ww: "\<forall>c\<in>set w'. is_word c"
    by (simp_all add: match_at_iff)
  have "s ! (length pre + 3) = CHR 0x60"
    by (simp add: s nth_append backticks_def)
  moreover have "length w' = length pre + 1 + length w"
    using s s' by (metis add_Suc_right add_left_cancel length_Cons length_append length_backticks
        add.commute add.left_commute plus_1_eq_Suc)
  then have "s ! (length pre + 3) \<in> set w'"
    by (simp add: s' nth_append length_backticks)
  ultimately show False
    using ww by (auto simp add: is_word_def)
qed

text \<open>
  The search succeeds with group \<open>w\<close> exactly when the line is some text, three
  backticks, and the word characters \<open>w\<close> up to its end.
\<close>

lemma regex_match_iff:
  "regex_match l = Some w \<longleftrightarrow> (\<exists>pre. l = pre @ backticks @ w \<and> (\<forall>c\<in>set w. is_word c))"
proof (induction l)
  case Nil
  show ?case by (simp add: match_at_iff)
next
  case (Cons c cs)
  show ?case
  proof (cases "match_at (c # cs)")
    case (Some g)
    then have g: "c # cs = backticks @ g" "\<forall>c\<in>set g. is_word c"
      by (simp_all add: match_at_iff)
    show ?thesis
    proof
      assume "regex_match (c # cs) = Some w"
      with Some have "g = w" by simp
      with g show "\<exists>pre. c # cs = pre @ backticks @ w \<and> (\<forall>c\<in>set w. is_word c)"
        by (intro exI[of _ "[]"]) simp
    next
      assume "\<exists>pre. c # cs = pre @ backticks @ w \<and> (\<forall>c\<in>set w. is_word c)"
      then obtain pre where pre: "c # cs = pre @ backticks @ w" and w: "\<forall>c\<in>set w. is_word c"
        by blast
      have "pre = []"
      proof (cases pre)
        case Nil
        then show ?thesis .
      next
        case (Cons d pre')
        with pre have "c # cs = d # pre' @ backticks @ w" by simp
        then have "match_at (c # cs) = None" by (rule match_at_no_later)
        with Some show ?thesis by simp
      qed
      with pre w have "match_at (c # cs) = Some w" by (simp add: match_at_iff)
      then show "regex_match (c # cs) = Some w" by simp
    qed
  next
    case None
    have "(\<exists>pre. c # cs = pre @ backticks @ w \<and> (\<forall>c\<in>set w. is_word c))
          \<longleftrightarrow> (\<exists>pre. cs = pre @ backticks @ w \<and> (\<forall>c\<in>set w. is_word c))" (is "?L \<longleftrightarrow> ?R")
    proof
      assume ?L
      then obtain pre where pre: "c # cs = pre @ backticks @ w" and w: "\<forall>c\<in>set w. is_word c"
        by blast
      show ?R
      proof (cases pre)
        case Nil
        with pre w have "match_at (c # cs) = Some w" by (simp add: match_at_iff)
        with None show ?thesis by simp
      next
        case (Cons d pre')
        with pre have "cs = pre' @ backticks @ w" by simp
        with w show ?thesis by blast
      qed
    next
      assume ?R
      then obtain pre where "cs = pre @ backticks @ w" and w: "\<forall>c\<in>set w. is_word c"
        by blast
      then have "c # cs = (c # pre) @ backticks @ w" by simp
      with w show ?L by blast
    qed
    with None Cons.IH show ?thesis by simp
  qed
qed

text \<open>
  With the cursor at the end of the line the detector does what its contract says: it
  fires exactly on a line that ends with the fence and a run of word characters, the
  query is the run, and the range goes from the first character of the run to the cursor.
\<close>

lemma onTrigger_cursor_at_line_end:
  assumes "ch cursor = int (length (getLine (line cursor)))"
  shows "onTrigger cursor getLine = Some t \<longleftrightarrow>
     (\<exists>pre. getLine (line cursor) = pre @ backticks @ query t \<and> (\<forall>c\<in>set (query t). is_word c)
        \<and> start t = \<lparr>line = line cursor, ch = int (length pre) + 3\<rparr> \<and> end_pos t = cursor)"
proof
  assume "onTrigger cursor getLine = Some t"
  then obtain w where m: "regex_match (getLine (line cursor)) = Some w"
    and t: "t = \<lparr>start = \<lparr>line = line cursor, ch = ch cursor - int (length w)\<rparr>,
                 end_pos = cursor, query = w\<rparr>"
    by (auto simp add: onTrigger_def split: option.splits)
  from m obtain pre where pre: "getLine (line cursor) = pre @ backticks @ w"
    and w: "\<forall>c\<in>set w. is_word c"
    by (auto simp add: regex_match_iff)
  from pre assms have "ch cursor - int (length w) = int (length pre) + 3"
    by (simp add: length_backticks)
  with t pre w show "\<exists>pre. getLine (line cursor) = pre @ backticks @ query t
      \<and> (\<forall>c\<in>set (query t). is_word c)
      \<and> start t = \<lparr>line = line cursor, ch = int (length pre) + 3\<rparr> \<and> end_pos t = cursor"
    by (intro exI[of _ pre]) simp
next
  assume "\<exists>pre. getLine (line cursor) = pre @ backticks @ query t
      \<and> (\<forall>c\<in>set (query t). is_word c)
      \<and> start t = \<lparr>line = line cursor, ch = int (length pre) + 3\<rparr> \<and> end_pos t = cursor"
  then obtain pre where pre: "getLine (line cursor) = pre @ backticks @ query t"
    and w: "\<forall>c\<in>set (query t). is_word c"
    and st: "start t = \<lparr>line = line cursor, ch = int (length pre) + 3\<rparr>" "end_pos t = cursor"
    by blast
  from pre w have m: "regex_match (getLine (line cursor)) = Some (query t)"
    by (auto simp add: regex_match_iff)
  from pre assms have "ch cursor - int (length (query t)) = int (length pre) + 3"
    by (simp add: length_backticks)
  with m st show "onTrigger cursor getLine = Some t"
    by (simp add: onTrigger_def)
qed

lemma onTrigger_examples:
  "onTrigger \<lparr>line = 0, ch = 5\<rparr> (\<lambda>n. ''```py'') =
     Some \<lparr>start = \<lparr>line = 0, ch = 3\<rparr>, end_pos = \<lparr>line = 0, ch = 5\<rparr>, query = ''py''\<rparr>"
  "onTrigger \<lparr>line = 0, ch = 6\<rparr> (\<lambda>n. ''```py '') = None"
  "onTrigger \<lparr>line = 0, ch = 3\<rparr> (\<lambda>n. ''```'') =
     Some \<lparr>start = \<lparr>line = 0, ch = 3\<rparr>, end_pos = \<lparr>line = 0, ch = 3\<rparr>, query = []\<rparr>"
  by (simp_all add: onTrigger_def match_at_def startsWith_def backticks_def is_word_def)

text \<open>
  C2. The detector is to fire exactly when the characters just before the cursor are
  three backticks and a run of word characters that ends at the cursor. The code
  matches the whole line and never looks at the column: on the line \<open>```python\<close> with
  the cursor at column 2, where only two backticks precede the cursor, it fires, with
  query \<open>python\<close> and the start column 2 - 6 = -4.
\<close>

theorem onTrigger_fires_inside_fence:
  "onTrigger \<lparr>line = 0, ch = 2\<rparr> (\<lambda>n. ''```python'') =
     Some \<lparr>start = \<lparr>line = 0, ch = - 4\<rparr>, end_pos = \<lparr>line = 0, ch = 2\<rparr>, query = ''python''\<rparr>"
  by (simp add: onTrigger_def match_at_def startsWith_def backticks_def is_word_def)

text \<open>
  C9. Whether the detector fires depends on the line alone: it fires exactly when the
  line ends with three backticks and a run of word characters, at every cursor
  column, and the start column it returns is the cursor column minus the length of
  the run, so it is negative when the cursor is nearer to the start of the line than
  the run is long.
\<close>

theorem onTrigger_ignores_cursor_column:
  "((\<exists>t. onTrigger cursor getLine = Some t) \<longleftrightarrow>
      (\<exists>pre w. getLine (line cursor) = pre @ backticks @ w \<and> list_all is_word w))
   \<and> (\<forall>pre w. getLine (line cursor) = pre @ backticks @ w \<and> list_all is_word w \<longrightarrow>
        onTrigger cursor getLine =
          Some \<lparr>start = \<lparr>line = line cursor, ch = ch cursor - int (length w)\<rparr>,
                end_pos = cursor, query = w\<rparr>)"
proof -
  have fires: "onTrigger cursor getLine =
          Some \<lparr>start = \<lparr>line = line cursor, ch = ch cursor - int (length w)\<rparr>,
                end_pos = cursor, query = w\<rparr>"
    if "getLine (line cursor) = pre @ backticks @ w" "list_all is_word w" for pre w
  proof -
    from that have "regex_match (getLine (line cursor)) = Some w"
      by (auto simp add: regex_match_iff list_all_iff)
    then show ?thesis
      by (simp add: onTrigger_def)
  qed
  have "\<exists>pre w. getLine (line cursor) = pre @ backticks @ w \<and> list_all is_word w"
    if "onTrigger cursor getLine = Some t" for t
  proof -
    from that obtain w where "regex_match (getLine (line cursor)) = Some w"
      by (auto simp add: onTrigger_def split: option.splits)
    then show ?thesis
      by (auto simp add: regex_match_iff list_all_iff)
  qed
  with fires show ?thesis
    by blast
qed

theorem onTrigger_ignores_cursor_column_witness:
  "''```python'' = [] @ backticks @ ''python'' \<and> list_all is_word ''python''
   \<and> onTrigger \<lparr>line = 7, ch = 0\<rparr> (\<lambda>n. ''```python'') =
       Some \<lparr>start = \<lparr>line = 7, ch = - 6\<rparr>, end_pos = \<lparr>line = 7, ch = 0\<rparr>, query = ''python''\<rparr>
   \<and> onTrigger \<lparr>line = 7, ch = 9\<rparr> (\<lambda>n. ''```python'') =
       Some \<lparr>start = \<lparr>line = 7, ch = 3\<rparr>, end_pos = \<lparr>line = 7, ch = 9\<rparr>, query = ''python''\<rparr>"
proof -
  have h1: "''```python'' = [] @ backticks @ ''python''"
    by (simp add: backticks_def)
  have h2: "list_all is_word ''python''"
    by (simp add: is_word_def)
  have n0: "(0::int) - int (length ''python'') = - 6" and n9: "(9::int) - int (length ''python'') = 3"
    by simp_all
  have "onTrigger \<lparr>line = 7, ch = 0\<rparr> (\<lambda>n. ''```python'') =
       Some \<lparr>start = \<lparr>line = 7, ch = 0 - int (length ''python'')\<rparr>,
             end_pos = \<lparr>line = 7, ch = 0\<rparr>, query = ''python''\<rparr>"
    using onTrigger_ignores_cursor_column [of "\<lparr>line = 7, ch = 0\<rparr>" "\<lambda>n. ''```python''"] h1 h2
    by (simp only: EditorPosition.select_convs)
  then have a: "onTrigger \<lparr>line = 7, ch = 0\<rparr> (\<lambda>n. ''```python'') =
       Some \<lparr>start = \<lparr>line = 7, ch = - 6\<rparr>, end_pos = \<lparr>line = 7, ch = 0\<rparr>, query = ''python''\<rparr>"
    by (simp only: n0)
  have "onTrigger \<lparr>line = 7, ch = 9\<rparr> (\<lambda>n. ''```python'') =
       Some \<lparr>start = \<lparr>line = 7, ch = 9 - int (length ''python'')\<rparr>,
             end_pos = \<lparr>line = 7, ch = 9\<rparr>, query = ''python''\<rparr>"
    using onTrigger_ignores_cursor_column [of "\<lparr>line = 7, ch = 9\<rparr>" "\<lambda>n. ''```python''"] h1 h2
    by (simp only: EditorPosition.select_convs)
  then have b: "onTrigger \<lparr>line = 7, ch = 9\<rparr> (\<lambda>n. ''```python'') =
       Some \<lparr>start = \<lparr>line = 7, ch = 3\<rparr>, end_pos = \<lparr>line = 7, ch = 9\<rparr>, query = ''python''\<rparr>"
    by (simp only: n9)
  from h1 h2 a b show ?thesis
    by blast
qed

section \<open>Suggestions\<close>

lemma toLowerCase_char_idem: "toLowerCase_char (toLowerCase_char c) = toLowerCase_char c"
  by (auto simp add: toLowerCase_char_def Let_def)

lemma toLowerCase_idem: "toLowerCase (toLowerCase s) = toLowerCase s"
  by (simp add: toLowerCase_def toLowerCase_char_idem)

lemma startsWith_lower_ci:
  assumes "startsWith s (toLowerCase q)"
  shows "startsWith_ci s q"
proof -
  from assms have "take (length q) s = toLowerCase q"
    by (simp add: startsWith_def toLowerCase_def)
  then have "toLowerCase (take (length q) s) = toLowerCase q"
    by (simp add: toLowerCase_idem)
  then show ?thesis
    by (simp add: startsWith_ci_def startsWith_def toLowerCase_def take_map)
qed

lemma set_getSuggestions:
  "set (fst (getSuggestions ctx st)) =
     {c \<in> set (languages st). startsWith c (toLowerCase (query ctx))}"
  by (auto simp add: getSuggestions_def Let_def array_includes_def)

text \<open>
  C1, as stated, fails. With \<open>MyLang\<close> entered as an additional language, the candidate
  list holds \<open>MyLang\<close>, which starts with the query \<open>my\<close> when case is ignored, and
  the suggestions for \<open>my\<close> are empty: only the query is lower-cased.
\<close>

theorem getSuggestions_omits_mixed_case_candidate:
  "''MyLang'' \<in> set (languages (updateLanguages
        \<lparr>settings = \<lparr>lastUsedLanguage = [], additionalLanguages = ''MyLang''\<rparr>,
         languages = [], suggest_context = None, calls = []\<rparr>))
   \<and> startsWith_ci ''MyLang'' ''my''
   \<and> fst (getSuggestions
        \<lparr>start = \<lparr>line = 0, ch = 3\<rparr>, end_pos = \<lparr>line = 0, ch = 5\<rparr>, query = ''my''\<rparr>
        (updateLanguages
          \<lparr>settings = \<lparr>lastUsedLanguage = [], additionalLanguages = ''MyLang''\<rparr>,
           languages = [], suggest_context = None, calls = []\<rparr>)) = []"
  by code_simp

text \<open>
  C1, amended. Every suggestion is a candidate that starts with the lower-cased query,
  hence with the query when case is ignored. No candidate that starts with the
  lower-cased query is omitted, so no candidate in lower case that starts with the
  query, case ignored, is omitted. The filter step keeps the order of the candidate
  list: the result is the filtered list, a subsequence of the candidates, or the
  last-used language followed by the rest of the filtered list.
\<close>

theorem getSuggestions_prefix_filter:
  "(\<forall>s \<in> set (fst (getSuggestions ctx st)).
        s \<in> set (languages st) \<and> startsWith s (toLowerCase (query ctx)) \<and> startsWith_ci s (query ctx))
   \<and> (\<forall>c \<in> set (languages st).
        startsWith c (toLowerCase (query ctx)) \<longrightarrow> c \<in> set (fst (getSuggestions ctx st)))
   \<and> (\<forall>c \<in> set (languages st).
        toLowerCase c = c \<and> startsWith_ci c (query ctx) \<longrightarrow> c \<in> set (fst (getSuggestions ctx st)))
   \<and> subseq (filter (\<lambda>lang. startsWith lang (toLowerCase (query ctx))) (languages st)) (languages st)
   \<and> (fst (getSuggestions ctx st) =
         filter (\<lambda>lang. startsWith lang (toLowerCase (query ctx))) (languages st)
      \<or> fst (getSuggestions ctx st) =
         lastUsedLanguage (settings st) #
         filter (\<lambda>lang. lang \<noteq> lastUsedLanguage (settings st))
           (filter (\<lambda>lang. startsWith lang (toLowerCase (query ctx))) (languages st)))"
proof -
  have 1: "\<forall>s \<in> set (fst (getSuggestions ctx st)).
        s \<in> set (languages st) \<and> startsWith s (toLowerCase (query ctx)) \<and> startsWith_ci s (query ctx)"
    by (simp add: set_getSuggestions startsWith_lower_ci)
  have 2: "\<forall>c \<in> set (languages st).
        startsWith c (toLowerCase (query ctx)) \<longrightarrow> c \<in> set (fst (getSuggestions ctx st))"
    by (simp add: set_getSuggestions)
  have 3: "\<forall>c \<in> set (languages st).
        toLowerCase c = c \<and> startsWith_ci c (query ctx) \<longrightarrow> c \<in> set (fst (getSuggestions ctx st))"
  proof (intro ballI impI)
    fix c assume "c \<in> set (languages st)" and "toLowerCase c = c \<and> startsWith_ci c (query ctx)"
    then have "c \<in> set (languages st)" and "startsWith c (toLowerCase (query ctx))"
      by (simp, metis startsWith_ci_def)
    then show "c \<in> set (fst (getSuggestions ctx st))"
      by (simp add: set_getSuggestions)
  qed
  have 4: "subseq (filter (\<lambda>lang. startsWith lang (toLowerCase (query ctx))) (languages st)) (languages st)"
    by simp
  have 5: "fst (getSuggestions ctx st) =
         filter (\<lambda>lang. startsWith lang (toLowerCase (query ctx))) (languages st)
      \<or> fst (getSuggestions ctx st) =
         lastUsedLanguage (settings st) #
         filter (\<lambda>lang. lang \<noteq> lastUsedLanguage (settings st))
           (filter (\<lambda>lang. startsWith lang (toLowerCase (query ctx))) (languages st))"
    by (simp add: getSuggestions_def Let_def)
  from 1 2 3 4 5 show ?thesis
    by blast
qed

theorem getSuggestions_prefix_filter_witness:
  "''python'' \<in> set baseLanguages
   \<and> toLowerCase ''python'' = ''python'' \<and> startsWith_ci ''python'' ''P''
   \<and> ''python'' \<in> set (fst (getSuggestions
        \<lparr>start = \<lparr>line = 0, ch = 3\<rparr>, end_pos = \<lparr>line = 0, ch = 4\<rparr>, query = ''P''\<rparr>
        \<lparr>settings = \<lparr>lastUsedLanguage = ''php'', additionalLanguages = []\<rparr>,
         languages = baseLanguages, suggest_context = None, calls = []\<rparr>))"
proof -
  have h1: "''python'' \<in> set baseLanguages"
    by (simp add: baseLanguages_def)
  have h2: "toLowerCase ''python'' = ''python'' \<and> startsWith_ci ''python'' ''P''"
    by code_simp
  have "\<forall>c \<in> set baseLanguages. toLowerCase c = c \<and> startsWith_ci c ''P'' \<longrightarrow>
      c \<in> set (fst (getSuggestions
        \<lparr>start = \<lparr>line = 0, ch = 3\<rparr>, end_pos = \<lparr>line = 0, ch = 4\<rparr>, query = ''P''\<rparr>
        \<lparr>settings = \<lparr>lastUsedLanguage = ''php'', additionalLanguages = []\<rparr>,
         languages = baseLanguages, suggest_context = None, calls = []\<rparr>))"
    using getSuggestions_prefix_filter
      [of "\<lparr>start = \<lparr>line = 0, ch = 3\<rparr>, end_pos = \<lparr>line = 0, ch = 4\<rparr>, query = ''P''\<rparr>"
          "\<lparr>settings = \<lparr>lastUsedLanguage = ''php'', additionalLanguages = []\<rparr>,
            languages = baseLanguages, suggest_context = None, calls = []\<rparr>",
       THEN conjunct2, THEN conjunct2, THEN conjunct1]
    by (simp only: EditorSuggestTriggerInfo.select_convs plugin_state.select_convs)
  from this [rule_format, OF h1 h2] show ?thesis
    by (rule conjI [OF h1 conjI [OF h2 [THEN conjunct1] conjI [OF h2 [THEN conjunct2]]]])
qed

text \<open>
  C3. When the last-used language is not empty, starts with the lower-cased query and
  is in the filtered list, it is the first suggestion, and the suggestions after it
  are the other entries of the filtered list in their order. Otherwise the filtered
  list is returned as it is.
\<close>

theorem getSuggestions_last_used_first:
  "(lastUsedLanguage (settings st) \<noteq> []
      \<and> startsWith (lastUsedLanguage (settings st)) (toLowerCase (query ctx))
      \<and> lastUsedLanguage (settings st) \<in>
          set (filter (\<lambda>lang. startsWith lang (toLowerCase (query ctx))) (languages st))
    \<longrightarrow> fst (getSuggestions ctx st) \<noteq> []
        \<and> fst (getSuggestions ctx st) ! 0 = lastUsedLanguage (settings st)
        \<and> drop 1 (fst (getSuggestions ctx st)) =
            filter (\<lambda>lang. lang \<noteq> lastUsedLanguage (settings st))
              (filter (\<lambda>lang. startsWith lang (toLowerCase (query ctx))) (languages st)))
   \<and> (\<not> (lastUsedLanguage (settings st) \<noteq> []
      \<and> startsWith (lastUsedLanguage (settings st)) (toLowerCase (query ctx))
      \<and> lastUsedLanguage (settings st) \<in>
          set (filter (\<lambda>lang. startsWith lang (toLowerCase (query ctx))) (languages st)))
    \<longrightarrow> fst (getSuggestions ctx st) =
          filter (\<lambda>lang. startsWith lang (toLowerCase (query ctx))) (languages st))"
  by (auto simp add: getSuggestions_def Let_def array_includes_def)

theorem getSuggestions_last_used_first_witness:
  "''php'' \<noteq> [] \<and> startsWith ''php'' (toLowerCase ''P'')
   \<and> ''php'' \<in> set (filter (\<lambda>lang. startsWith lang (toLowerCase ''P'')) baseLanguages)
   \<and> fst (getSuggestions
        \<lparr>start = \<lparr>line = 0, ch = 3\<rparr>, end_pos = \<lparr>line = 0, ch = 4\<rparr>, query = ''P''\<rparr>
        \<lparr>settings = \<lparr>lastUsedLanguage = ''php'', additionalLanguages = []\<rparr>,
         languages = baseLanguages, suggest_context = None, calls = []\<rparr>) ! 0 = ''php''
   \<and> drop 1 (fst (getSuggestions
        \<lparr>start = \<lparr>line = 0, ch = 3\<rparr>, end_pos = \<lparr>line = 0, ch = 4\<rparr>, query = ''P''\<rparr>
        \<lparr>settings = \<lparr>lastUsedLanguage = ''php'', additionalLanguages = []\<rparr>,
         languages = baseLanguages, suggest_context = None, calls = []\<rparr>))
      = [''python'', ''powershell'']
   \<and> \<not> ([] \<noteq> [] \<and> startsWith [] (toLowerCase ''P'')
        \<and> [] \<in> set (filter (\<lambda>lang. startsWith lang (toLowerCase ''P'')) baseLanguages))
   \<and> fst (getSuggestions
        \<lparr>start = \<lparr>line = 0, ch = 3\<rparr>, end_pos = \<lparr>line = 0, ch = 4\<rparr>, query = ''P''\<rparr>
        \<lparr>settings = \<lparr>lastUsedLanguage = [], additionalLanguages = []\<rparr>,
         languages = baseLanguages, suggest_context = None, calls = []\<rparr>)
      = [''python'', ''php'', ''powershell'']"
proof -
  let ?C = "\<lparr>start = \<lparr>line = 0, ch = 3\<rparr>, end_pos = \<lparr>line = 0, ch = 4\<rparr>, query = ''P''\<rparr>"
  let ?S = "\<lparr>settings = \<lparr>lastUsedLanguage = ''php'', additionalLanguages = []\<rparr>,
         languages = baseLanguages, suggest_context = None, calls = []\<rparr>"
  let ?T = "\<lparr>settings = \<lparr>lastUsedLanguage = [], additionalLanguages = []\<rparr>,
         languages = baseLanguages, suggest_context = None, calls = []\<rparr>"
  have lq: "toLowerCase ''P'' = ''p''"
    by code_simp
  have f: "filter (\<lambda>lang. startsWith lang ''p'') baseLanguages = [''python'', ''php'', ''powershell'']"
    by (simp add: baseLanguages_def startsWith_def)
  have g: "filter (\<lambda>lang. lang \<noteq> ''php'') [''python'', ''php'', ''powershell''] = [''python'', ''powershell'']"
    by simp
  have h: "''php'' \<noteq> [] \<and> startsWith ''php'' (toLowerCase ''P'')
      \<and> ''php'' \<in> set (filter (\<lambda>lang. startsWith lang (toLowerCase ''P'')) baseLanguages)"
    unfolding lq f by (simp add: startsWith_def)
  have k: "\<not> ([] \<noteq> [] \<and> startsWith [] (toLowerCase ''P'')
      \<and> [] \<in> set (filter (\<lambda>lang. startsWith lang (toLowerCase ''P'')) baseLanguages))"
    by simp
  have a: "fst (getSuggestions ?C ?S) ! 0 = ''php''
      \<and> drop 1 (fst (getSuggestions ?C ?S)) =
          filter (\<lambda>lang. lang \<noteq> ''php'') (filter (\<lambda>lang. startsWith lang (toLowerCase ''P'')) baseLanguages)"
    using getSuggestions_last_used_first [of ?S ?C] h
    by (simp only: EditorSuggestTriggerInfo.select_convs plugin_state.select_convs
        CodeBlockInserterSettings.select_convs simp_thms)
  have b: "fst (getSuggestions ?C ?T) =
      filter (\<lambda>lang. startsWith lang (toLowerCase ''P'')) baseLanguages"
    using getSuggestions_last_used_first [of ?T ?C] k
    by (simp only: EditorSuggestTriggerInfo.select_convs plugin_state.select_convs
        CodeBlockInserterSettings.select_convs simp_thms)
  from a have a': "fst (getSuggestions ?C ?S) ! 0 = ''php''
      \<and> drop 1 (fst (getSuggestions ?C ?S)) = [''python'', ''powershell'']"
    unfolding lq f g .
  from b have b': "fst (getSuggestions ?C ?T) = [''python'', ''php'', ''powershell'']"
    unfolding lq f .
  from h k a' b' show ?thesis
    by blast
qed

text \<open>
  C6. Two calls with the same query, the same candidate list and the same last-used
  language return the same list, whatever the rest of the two states is, and a call
  returns the state it was given: candidate list, settings, open session and host
  calls are unchanged.
\<close>

theorem getSuggestions_pure:
  "(query c1 = query c2 \<and> languages st1 = languages st2
      \<and> lastUsedLanguage (settings st1) = lastUsedLanguage (settings st2)
    \<longrightarrow> fst (getSuggestions c1 st1) = fst (getSuggestions c2 st2))
   \<and> snd (getSuggestions ctx st) = st"
  by (simp add: getSuggestions_def Let_def)

theorem getSuggestions_pure_witness:
  "fst (getSuggestions
        \<lparr>start = \<lparr>line = 0, ch = 3\<rparr>, end_pos = \<lparr>line = 0, ch = 4\<rparr>, query = ''p''\<rparr>
        \<lparr>settings = \<lparr>lastUsedLanguage = ''php'', additionalLanguages = ''mylang''\<rparr>,
         languages = [''python'', ''php''], suggest_context = None, calls = []\<rparr>)
   = fst (getSuggestions
        \<lparr>start = \<lparr>line = 8, ch = 5\<rparr>, end_pos = \<lparr>line = 8, ch = 6\<rparr>, query = ''p''\<rparr>
        \<lparr>settings = \<lparr>lastUsedLanguage = ''php'', additionalLanguages = []\<rparr>,
         languages = [''python'', ''php''],
         suggest_context = Some \<lparr>start = \<lparr>line = 8, ch = 5\<rparr>, end_pos = \<lparr>line = 8, ch = 6\<rparr>, query = ''p''\<rparr>,
         calls = [SetCursor \<lparr>line = 8, ch = 6\<rparr>]\<rparr>)"
  using getSuggestions_pure
    [of "\<lparr>start = \<lparr>line = 0, ch = 3\<rparr>, end_pos = \<lparr>line = 0, ch = 4\<rparr>, query = ''p''\<rparr>"
        "\<lparr>start = \<lparr>line = 8, ch = 5\<rparr>, end_pos = \<lparr>line = 8, ch = 6\<rparr>, query = ''p''\<rparr>"
        "\<lparr>settings = \<lparr>lastUsedLanguage = ''php'', additionalLanguages = ''mylang''\<rparr>,
         languages = [''python'', ''php''], suggest_context = None, calls = []\<rparr>"
        "\<lparr>settings = \<lparr>lastUsedLanguage = ''php'', additionalLanguages = []\<rparr>,
         languages = [''python'', ''php''],
         suggest_context = Some \<lparr>start = \<lparr>line = 8, ch = 5\<rparr>, end_pos = \<lparr>line = 8, ch = 6\<rparr>, query = ''p''\<rparr>,
         calls = [SetCursor \<lparr>line = 8, ch = 6\<rparr>]\<rparr>"]
  by (simp only: EditorSuggestTriggerInfo.select_convs plugin_state.select_convs
      CodeBlockInserterSettings.select_convs simp_thms)

section \<open>Committing a selection\<close>

lemma selectSuggestion_Inr:
  assumes "suggest_context st = Some ctx"
  shows "selectSuggestion lang st =
     Inr \<lparr>settings = (settings st)\<lparr>lastUsedLanguage := lang\<rparr>,
          languages = languages st,
          suggest_context = suggest_context st,
          calls = calls st @
            [ReplaceRange lang (start ctx) (Some (end_pos ctx)),
             SaveData ((settings st)\<lparr>lastUsedLanguage := lang\<rparr>),
             SetCursor \<lparr>line = line (end_pos ctx) + 1, ch = 0\<rparr>]\<rparr>"
  using assms
  by (simp add: selectSuggestion_def replaceRange_def saveSettings_def setCursor_def Let_def)

text \<open>
  C5. With an open session whose range is start..end, committing the chosen string
  makes three host calls, in this order: replace the range start..end by the chosen
  string as it is, save the settings, in which lastUsedLanguage is now the chosen
  string, and put the cursor on line end.line + 1, column 0.
\<close>

theorem selectSuggestion_commits:
  assumes "suggest_context st = Some ctx"
  shows "\<exists>st'. selectSuggestion lang st = Inr st'
     \<and> calls st' = calls st @
          [ReplaceRange lang (start ctx) (Some (end_pos ctx)),
           SaveData ((settings st)\<lparr>lastUsedLanguage := lang\<rparr>),
           SetCursor \<lparr>line = line (end_pos ctx) + 1, ch = 0\<rparr>]
     \<and> lastUsedLanguage (settings st') = lang"
  by (simp add: selectSuggestion_Inr [OF assms])

theorem selectSuggestion_commits_witness:
  "\<exists>st'. selectSuggestion ''rust''
        \<lparr>settings = \<lparr>lastUsedLanguage = ''php'', additionalLanguages = ''mylang''\<rparr>,
         languages = [''mylang'', ''rust''],
         suggest_context =
           Some \<lparr>start = \<lparr>line = 2, ch = 3\<rparr>, end_pos = \<lparr>line = 2, ch = 5\<rparr>, query = ''ru''\<rparr>,
         calls = []\<rparr> = Inr st'
     \<and> calls st' =
          [ReplaceRange ''rust'' \<lparr>line = 2, ch = 3\<rparr> (Some \<lparr>line = 2, ch = 5\<rparr>),
           SaveData \<lparr>lastUsedLanguage = ''rust'', additionalLanguages = ''mylang''\<rparr>,
           SetCursor \<lparr>line = 3, ch = 0\<rparr>]
     \<and> lastUsedLanguage (settings st') = ''rust''"
  using selectSuggestion_commits
    [of "\<lparr>settings = \<lparr>lastUsedLanguage = ''php'', additionalLanguages = ''mylang''\<rparr>,
         languages = [''mylang'', ''rust''],
         suggest_context =
           Some \<lparr>start = \<lparr>line = 2, ch = 3\<rparr>, end_pos = \<lparr>line = 2, ch = 5\<rparr>, query = ''ru''\<rparr>,
         calls = []\<rparr>"
        "\<lparr>start = \<lparr>line = 2, ch = 3\<rparr>, end_pos = \<lparr>line = 2, ch = 5\<rparr>, query = ''ru''\<rparr>"
        "''rust''"]
  by simp

text \<open>
  C10. A commit that goes through changes, of the settings, the field
  lastUsedLanguage only: additionalLanguages is as before, and so are the candidate
  list and the open session. A commit with no open session fails before it changes
  anything.
\<close>

theorem selectSuggestion_frame:
  assumes "selectSuggestion lang st = Inr st'"
  shows "additionalLanguages (settings st') = additionalLanguages (settings st)
     \<and> languages st' = languages st
     \<and> settings st' = (settings st)\<lparr>lastUsedLanguage := lang\<rparr>
     \<and> suggest_context st' = suggest_context st"
proof (cases "suggest_context st")
  case None
  with assms show ?thesis
    by (simp add: selectSuggestion_def)
next
  case (Some ctx)
  from selectSuggestion_Inr [OF this, of lang] assms show ?thesis
    by auto
qed

theorem selectSuggestion_frame_witness:
  "selectSuggestion ''rust''
        \<lparr>settings = \<lparr>lastUsedLanguage = ''php'', additionalLanguages = ''mylang''\<rparr>,
         languages = [''mylang'', ''rust''],
         suggest_context =
           Some \<lparr>start = \<lparr>line = 2, ch = 3\<rparr>, end_pos = \<lparr>line = 2, ch = 5\<rparr>, query = ''ru''\<rparr>,
         calls = []\<rparr>
     = Inr \<lparr>settings = \<lparr>lastUsedLanguage = ''rust'', additionalLanguages = ''mylang''\<rparr>,
         languages = [''mylang'', ''rust''],
         suggest_context =
           Some \<lparr>start = \<lparr>line = 2, ch = 3\<rparr>, end_pos = \<lparr>line = 2, ch = 5\<rparr>, query = ''ru''\<rparr>,
         calls = [ReplaceRange ''rust'' \<lparr>line = 2, ch = 3\<rparr> (Some \<lparr>line = 2, ch = 5\<rparr>),
           SaveData \<lparr>lastUsedLanguage = ''rust'', additionalLanguages = ''mylang''\<rparr>,
           SetCursor \<lparr>line = 3, ch = 0\<rparr>]\<rparr>
   \<and> additionalLanguages \<lparr>lastUsedLanguage = ''rust'', additionalLanguages = ''mylang''\<rparr>
       = additionalLanguages \<lparr>lastUsedLanguage = ''php'', additionalLanguages = ''mylang''\<rparr>"
proof -
  have h: "selectSuggestion ''rust''
        \<lparr>settings = \<lparr>lastUsedLanguage = ''php'', additionalLanguages = ''mylang''\<rparr>,
         languages = [''mylang'', ''rust''],
         suggest_context =
           Some \<lparr>start = \<lparr>line = 2, ch = 3\<rparr>, end_pos = \<lparr>line = 2, ch = 5\<rparr>, query = ''ru''\<rparr>,
         calls = []\<rparr>
     = Inr \<lparr>settings = \<lparr>lastUsedLanguage = ''rust'', additionalLanguages = ''mylang''\<rparr>,
         languages = [''mylang'', ''rust''],
         suggest_context =
           Some \<lparr>start = \<lparr>line = 2, ch = 3\<rparr>, end_pos = \<lparr>line = 2, ch = 5\<rparr>, query = ''ru''\<rparr>,
         calls = [ReplaceRange ''rust'' \<lparr>line = 2, ch = 3\<rparr> (Some \<lparr>line = 2, ch = 5\<rparr>),
           SaveData \<lparr>lastUsedLanguage = ''rust'', additionalLanguages = ''mylang''\<rparr>,
           SetCursor \<lparr>line = 3, ch = 0\<rparr>]\<rparr>"
    by (simp add: selectSuggestion_def replaceRange_def saveSettings_def setCursor_def)
  from selectSuggestion_frame [OF h] h show ?thesis
    by simp
qed

section \<open>Loading the settings\<close>

lemma index_key_digits: "c \<in> set (index_key n) \<Longrightarrow> (of_char c :: nat) < 58"
proof (induction n arbitrary: c rule: index_key.induct)
  case (1 n)
  show ?case
  proof (cases "n < 10")
    case True
    with "1.prems" have "c = digit_char n"
      by (simp add: index_key.simps [of n])
    with True show ?thesis
      by (simp add: digit_char_def)
  next
    case False
    with "1.prems" have "c \<in> set (index_key (n div 10)) \<or> c = digit_char (n mod 10)"
      by (auto simp add: index_key.simps [of n])
    then show ?thesis
    proof
      assume "c \<in> set (index_key (n div 10))"
      with False "1.IH" show ?thesis
        by blast
    next
      assume "c = digit_char (n mod 10)"
      moreover have "n mod 10 < 10"
        by simp
      ultimately show ?thesis
        by (simp add: digit_char_def)
    qed
  qed
qed

lemma index_key_not_field:
  "index_key n \<noteq> ''lastUsedLanguage''" "index_key n \<noteq> ''additionalLanguages''"
proof -
  have "CHR ''l'' \<notin> set (index_key n)" "CHR ''a'' \<notin> set (index_key n)"
    using index_key_digits [of "CHR ''l''" n] index_key_digits [of "CHR ''a''" n] by auto
  then show "index_key n \<noteq> ''lastUsedLanguage''" "index_key n \<noteq> ''additionalLanguages''"
    by (metis list.set_intros(1))+
qed

lemma map_of_index_keys:
  assumes "\<And>n. index_key n \<noteq> k"
  shows "map_of (zip (map index_key ns) vs) k = None"
proof -
  have "k \<notin> set (map index_key ns)"
    using assms by auto
  then have "k \<notin> fst ` set (zip (map index_key ns) vs)"
    by (auto dest: set_zip_leftD)
  then show ?thesis
    by (simp add: map_of_eq_None_iff)
qed

text \<open>
  Of a stored value, only an object has a property with the name of a field: the
  properties of a string and of an array are indices.
\<close>

lemma own_properties_field:
  assumes "k = ''lastUsedLanguage'' \<or> k = ''additionalLanguages''"
  shows "own_properties data k = (case data of JObj m \<Rightarrow> m k | _ \<Rightarrow> None)"
proof -
  have "\<And>n. index_key n \<noteq> k"
    using assms index_key_not_field by blast
  then show ?thesis
    by (cases data) (simp_all add: map_of_index_keys)
qed

lemma merged_field:
  assumes "k = ''lastUsedLanguage'' \<or> k = ''additionalLanguages''"
  shows "Object_assign Map.empty [JObj (settings_object DEFAULT_SETTINGS), data] k =
     Some (case data of
             JObj m \<Rightarrow> (case m k of None \<Rightarrow> JStr [] | Some v \<Rightarrow> v)
           | _ \<Rightarrow> JStr [])"
proof -
  have d: "settings_object DEFAULT_SETTINGS k = Some (JStr [])"
    using assms by (auto simp add: settings_object_def DEFAULT_SETTINGS_def)
  have "Object_assign Map.empty [JObj (settings_object DEFAULT_SETTINGS), data] k =
      (case own_properties data k of None \<Rightarrow> settings_object DEFAULT_SETTINGS k | Some v \<Rightarrow> Some v)"
    by (simp add: Object_assign_def map_add_def split: option.splits)
  then show ?thesis
    by (simp add: own_properties_field [OF assms] d split: js_value.splits option.splits)
qed

lemma loadSettings_Rejected: "loadSettings Rejected = Inl LoadDataRejected"
  by (simp add: loadSettings_def)

text \<open>
  C7, as stated, fails. The stored object with the one property lastUsedLanguage set to
  null is a partial record; loading it gives settings whose lastUsedLanguage is null,
  not a string, so the object is not a settings record of two strings.
\<close>

theorem loadSettings_keeps_stored_null:
  "(case loadSettings (Resolved (JObj [''lastUsedLanguage'' \<mapsto> JNull])) of
      Inl e \<Rightarrow> None | Inr obj \<Rightarrow> obj ''lastUsedLanguage'') = Some JNull
   \<and> (case loadSettings (Resolved (JObj [''lastUsedLanguage'' \<mapsto> JNull])) of
      Inl e \<Rightarrow> None | Inr obj \<Rightarrow> as_settings obj) = None"
  by (simp add: loadSettings_def Object_assign_def as_settings_def settings_object_def
      DEFAULT_SETTINGS_def)

text \<open>
  C7, amended. Whatever value the store resolves to, loading does not fail, and in the
  settings it produces both fields are defined: each is the stored value where the
  stored value is an object that has the field, and the empty string otherwise. So the
  two fields are strings, and the settings a record of the plugin state, exactly when
  every field the stored object has is a string: in particular when nothing is stored
  and when the stored record lacks either field.
\<close>

theorem loadSettings_merges_defaults:
  "\<exists>obj. loadSettings (Resolved data) = Inr obj
     \<and> obj ''lastUsedLanguage'' =
         Some (case data of
                 JObj m \<Rightarrow> (case m ''lastUsedLanguage'' of None \<Rightarrow> JStr [] | Some v \<Rightarrow> v)
               | _ \<Rightarrow> JStr [])
     \<and> obj ''additionalLanguages'' =
         Some (case data of
                 JObj m \<Rightarrow> (case m ''additionalLanguages'' of None \<Rightarrow> JStr [] | Some v \<Rightarrow> v)
               | _ \<Rightarrow> JStr [])
     \<and> (\<forall>l a. as_settings obj = Some \<lparr>lastUsedLanguage = l, additionalLanguages = a\<rparr> \<longleftrightarrow>
           obj ''lastUsedLanguage'' = Some (JStr l) \<and> obj ''additionalLanguages'' = Some (JStr a))
     \<and> ((\<forall>m v. data = JObj m \<and>
             (m ''lastUsedLanguage'' = Some v \<or> m ''additionalLanguages'' = Some v)
             \<longrightarrow> (\<exists>s. v = JStr s))
          \<longrightarrow> (\<exists>s. as_settings obj = Some s))"
proof -
  let ?obj = "Object_assign Map.empty [JObj (settings_object DEFAULT_SETTINGS), data]"
  let ?l = "case data of
              JObj m \<Rightarrow> (case m ''lastUsedLanguage'' of None \<Rightarrow> JStr [] | Some v \<Rightarrow> v)
            | _ \<Rightarrow> JStr []"
  let ?a = "case data of
              JObj m \<Rightarrow> (case m ''additionalLanguages'' of None \<Rightarrow> JStr [] | Some v \<Rightarrow> v)
            | _ \<Rightarrow> JStr []"
  have 1: "loadSettings (Resolved data) = Inr ?obj"
    by (simp add: loadSettings_def)
  have 2: "?obj ''lastUsedLanguage'' = Some ?l"
    by (rule merged_field) simp
  have 3: "?obj ''additionalLanguages'' = Some ?a"
    by (rule merged_field) simp
  have 4: "\<forall>l a. as_settings ?obj = Some \<lparr>lastUsedLanguage = l, additionalLanguages = a\<rparr> \<longleftrightarrow>
           ?obj ''lastUsedLanguage'' = Some (JStr l) \<and> ?obj ''additionalLanguages'' = Some (JStr a)"
    unfolding 2 3 as_settings_def by (auto split: js_value.splits option.splits)
  have 5: "\<exists>s. as_settings ?obj = Some s"
    if h: "\<forall>m v. data = JObj m \<and>
             (m ''lastUsedLanguage'' = Some v \<or> m ''additionalLanguages'' = Some v)
             \<longrightarrow> (\<exists>s. v = JStr s)"
  proof -
    from h have "\<exists>s. ?l = JStr s"
      by (auto split: js_value.splits option.splits)
    moreover from h have "\<exists>s. ?a = JStr s"
      by (auto split: js_value.splits option.splits)
    ultimately obtain l a where "?l = JStr l" "?a = JStr a"
      by blast
    with 2 3 have "?obj ''lastUsedLanguage'' = Some (JStr l)"
      "?obj ''additionalLanguages'' = Some (JStr a)"
      by simp_all
    then show ?thesis
      by (simp add: as_settings_def)
  qed
  from 1 2 3 4 5 show ?thesis
    by blast
qed

theorem loadSettings_merges_defaults_witness:
  "(\<exists>obj. loadSettings (Resolved (JObj [''additionalLanguages'' \<mapsto> JStr ''mylang, python''])) = Inr obj
      \<and> obj ''lastUsedLanguage'' = Some (JStr [])
      \<and> obj ''additionalLanguages'' = Some (JStr ''mylang, python'')
      \<and> as_settings obj =
          Some \<lparr>lastUsedLanguage = [], additionalLanguages = ''mylang, python''\<rparr>)
   \<and> (\<exists>obj. loadSettings (Resolved JNull) = Inr obj
      \<and> as_settings obj = Some \<lparr>lastUsedLanguage = [], additionalLanguages = []\<rparr>)"
proof -
  let ?D = "JObj [''additionalLanguages'' \<mapsto> JStr ''mylang, python'']"
  obtain obj where o: "loadSettings (Resolved ?D) = Inr obj"
    and l: "obj ''lastUsedLanguage'' =
         Some (case ?D of
                 JObj m \<Rightarrow> (case m ''lastUsedLanguage'' of None \<Rightarrow> JStr [] | Some v \<Rightarrow> v)
               | _ \<Rightarrow> JStr [])"
    and a: "obj ''additionalLanguages'' =
         Some (case ?D of
                 JObj m \<Rightarrow> (case m ''additionalLanguages'' of None \<Rightarrow> JStr [] | Some v \<Rightarrow> v)
               | _ \<Rightarrow> JStr [])"
    and s: "\<forall>l a. as_settings obj = Some \<lparr>lastUsedLanguage = l, additionalLanguages = a\<rparr> \<longleftrightarrow>
           obj ''lastUsedLanguage'' = Some (JStr l) \<and> obj ''additionalLanguages'' = Some (JStr a)"
    using loadSettings_merges_defaults [of ?D] by blast
  from l have l': "obj ''lastUsedLanguage'' = Some (JStr [])"
    by simp
  from a have a': "obj ''additionalLanguages'' = Some (JStr ''mylang, python'')"
    by simp
  from s l' a' have s': "as_settings obj =
      Some \<lparr>lastUsedLanguage = [], additionalLanguages = ''mylang, python''\<rparr>"
    by (simp only: simp_thms)
  have first: "\<exists>obj. loadSettings (Resolved ?D) = Inr obj
      \<and> obj ''lastUsedLanguage'' = Some (JStr [])
      \<and> obj ''additionalLanguages'' = Some (JStr ''mylang, python'')
      \<and> as_settings obj =
          Some \<lparr>lastUsedLanguage = [], additionalLanguages = ''mylang, python''\<rparr>"
    using o l' a' s' by (intro exI [of _ obj] conjI)
  obtain obj0 where o0: "loadSettings (Resolved JNull) = Inr obj0"
    and l0: "obj0 ''lastUsedLanguage'' =
         Some (case JNull of
                 JObj m \<Rightarrow> (case m ''lastUsedLanguage'' of None \<Rightarrow> JStr [] | Some v \<Rightarrow> v)
               | _ \<Rightarrow> JStr [])"
    and a0: "obj0 ''additionalLanguages'' =
         Some (case JNull of
                 JObj m \<Rightarrow> (case m ''additionalLanguages'' of None \<Rightarrow> JStr [] | Some v \<Rightarrow> v)
               | _ \<Rightarrow> JStr [])"
    and s0: "\<forall>l a. as_settings obj0 = Some \<lparr>lastUsedLanguage = l, additionalLanguages = a\<rparr> \<longleftrightarrow>
           obj0 ''lastUsedLanguage'' = Some (JStr l) \<and> obj0 ''additionalLanguages'' = Some (JStr a)"
    using loadSettings_merges_defaults [of JNull] by blast
  from l0 a0 have "obj0 ''lastUsedLanguage'' = Some (JStr [])"
    "obj0 ''additionalLanguages'' = Some (JStr [])"
    by simp_all
  with s0 have "as_settings obj0 = Some \<lparr>lastUsedLanguage = [], additionalLanguages = []\<rparr>"
    by (simp only: simp_thms)
  with o0 have second: "\<exists>obj. loadSettings (Resolved JNull) = Inr obj
      \<and> as_settings obj = Some \<lparr>lastUsedLanguage = [], additionalLanguages = []\<rparr>"
    by (intro exI [of _ obj0] conjI)
  from first second show ?thesis
    by (rule conjI)
qed

section \<open>The candidate list\<close>

lemma dropWhile_trim:
  "dropWhile is_white s =
     trim s @ rev (takeWhile is_white (rev (dropWhile is_white s)))"
proof -
  let ?m = "dropWhile is_white s"
  have "rev (rev ?m) = rev (takeWhile is_white (rev ?m) @ dropWhile is_white (rev ?m))"
    by (simp only: takeWhile_dropWhile_id)
  then show ?thesis
    by (simp only: rev_rev_ident rev_append trim_def)
qed

lemma trim_decomp:
  "\<exists>l r. s = l @ trim s @ r \<and> (\<forall>c\<in>set l. is_white c) \<and> (\<forall>c\<in>set r. is_white c)"
proof -
  let ?l = "takeWhile is_white s"
  let ?r = "rev (takeWhile is_white (rev (dropWhile is_white s)))"
  have "s = ?l @ dropWhile is_white s"
    by simp
  also have "\<dots> = ?l @ trim s @ ?r"
    using dropWhile_trim [of s] by (rule arg_cong)
  finally have "s = ?l @ trim s @ ?r" .
  moreover have "\<forall>c\<in>set ?l. is_white c"
    by (auto dest: set_takeWhileD)
  moreover have "\<forall>c\<in>set ?r. is_white c"
    by (auto dest: set_takeWhileD)
  ultimately show ?thesis
    by blast
qed

lemma trim_Nil_iff: "trim s = [] \<longleftrightarrow> (\<forall>c\<in>set s. is_white c)"
proof
  assume t: "trim s = []"
  obtain l r where "s = l @ trim s @ r" "\<forall>c\<in>set l. is_white c" "\<forall>c\<in>set r. is_white c"
    using trim_decomp [of s] by blast
  with t have "s = l @ r" "\<forall>c\<in>set (l @ r). is_white c"
    by auto
  then show "\<forall>c\<in>set s. is_white c"
    by simp
next
  assume "\<forall>c\<in>set s. is_white c"
  then have "dropWhile is_white s = []"
    by (simp only: dropWhile_eq_Nil_conv)
  then show "trim s = []"
    by (simp add: trim_def del: dropWhile_eq_Nil_conv)
qed

lemma trim_edges:
  assumes "trim s \<noteq> []"
  shows "\<not> is_white (hd (trim s)) \<and> \<not> is_white (last (trim s))"
proof -
  let ?m = "dropWhile is_white s"
  have n: "dropWhile is_white (rev ?m) \<noteq> []"
    using assms by (simp add: trim_def)
  then have "\<not> is_white (hd (dropWhile is_white (rev ?m)))"
    by (rule hd_dropWhile)
  then have l: "\<not> is_white (last (trim s))"
    using n by (simp add: trim_def last_rev)
  from assms dropWhile_trim [of s] have m: "?m \<noteq> []"
    by (metis append_is_Nil_conv)
  from assms dropWhile_trim [of s] have h: "hd ?m = hd (trim s)"
    by (metis hd_append2)
  from m have "\<not> is_white (hd ?m)"
    by (rule hd_dropWhile)
  with h l show ?thesis
    by simp
qed

lemma split_on_not_Nil: "split_on sep s \<noteq> []"
  by (induction s) (simp_all add: Let_def)

lemma join_Cons_hd: "join sep ((c # h) # t) = c # join sep (h # t)"
  by (cases t) simp_all

lemma join_split_on: "join sep (split_on sep s) = s"
proof (induction s)
  case Nil
  show ?case by simp
next
  case (Cons c cs)
  obtain h t where r: "split_on sep cs = h # t"
    using split_on_not_Nil [of sep cs] by (cases "split_on sep cs") auto
  with Cons show ?case
    by (simp add: join_Cons_hd)
qed

lemma split_on_no_sep: "seg \<in> set (split_on sep s) \<Longrightarrow> sep \<notin> set seg"
proof (induction s arbitrary: seg)
  case Nil
  then show ?case by simp
next
  case (Cons c cs)
  obtain h t where r: "split_on sep cs = h # t"
    using split_on_not_Nil [of sep cs] by (cases "split_on sep cs") auto
  with Cons show ?case
    by (auto split: if_splits)
qed

lemma set_parse_additional:
  "e \<in> set (parse_additional a) \<longleftrightarrow>
     (\<exists>seg\<in>set (split_on (CHR '','') a). e = trim seg \<and> \<not> (\<forall>c\<in>set seg. is_white c))"
  by (auto simp add: parse_additional_def trim_Nil_iff)

lemma distinct_foldl_set_add: "distinct acc \<Longrightarrow> distinct (foldl set_add acc xs)"
  by (induction xs arbitrary: acc) (simp_all add: set_add_def)

lemma set_foldl_set_add: "set (foldl set_add acc xs) = set acc \<union> set xs"
  by (induction xs arbitrary: acc) (auto simp add: set_add_def)

lemma foldl_set_add_distinct:
  "distinct bs \<Longrightarrow> foldl set_add acc bs = acc @ filter (\<lambda>b. b \<notin> set acc) bs"
proof (induction bs arbitrary: acc)
  case Nil
  show ?case by simp
next
  case (Cons b bs)
  then have "filter (\<lambda>x. x \<noteq> b \<and> x \<notin> set acc) bs = filter (\<lambda>x. x \<notin> set acc) bs"
    by (auto intro: filter_cong)
  with Cons show ?case
    by (simp add: set_add_def)
qed

lemma remdups_append_Cons_mem: "x \<in> set zs \<Longrightarrow> remdups (ys @ x # zs) = remdups (ys @ zs)"
  by (induction ys) auto

lemma foldl_set_add_first_occurrences:
  "distinct acc \<Longrightarrow> foldl set_add acc xs = rev (remdups (rev (acc @ xs)))"
proof (induction xs arbitrary: acc)
  case Nil
  then show ?case by (simp add: distinct_remdups_id)
next
  case (Cons x xs)
  show ?case
  proof (cases "x \<in> set acc")
    case True
    then have "remdups (rev xs @ x # rev acc) = remdups (rev xs @ rev acc)"
      by (simp add: remdups_append_Cons_mem)
    with True Cons show ?thesis
      by (simp add: set_add_def)
  next
    case False
    with Cons.prems have "distinct (acc @ [x])"
      by simp
    from Cons.IH [OF this] False show ?thesis
      by (simp add: set_add_def)
  qed
qed

lemma new_Set_first_occurrences: "new_Set xs = rev (remdups (rev xs))"
  using foldl_set_add_first_occurrences [of "[]" xs] by (simp add: new_Set_def)

lemma distinct_new_Set: "distinct (new_Set xs)"
  by (simp add: new_Set_def distinct_foldl_set_add)

lemma set_new_Set: "set (new_Set xs) = set xs"
  by (simp add: new_Set_def set_foldl_set_add)

lemma new_Set_append_distinct:
  "distinct bs \<Longrightarrow> new_Set (us @ bs) = new_Set us @ filter (\<lambda>b. b \<notin> set us) bs"
  by (simp add: new_Set_def foldl_set_add_distinct set_foldl_set_add)

lemma distinct_baseLanguages: "distinct baseLanguages"
  by (simp add: baseLanguages_def)

text \<open>
  C4. The candidate list is the user's entries, then the built-in list, with every
  value kept at its first position only: there is no duplicate, the user's entries
  come first in their order, and the built-in languages the user did not enter follow
  in the built-in order. The user's entries are the segments between the commas of
  additionalLanguages, each without its leading and trailing white space, the empty
  ones and those of white space only left out.
\<close>

theorem updateLanguages_candidates:
  assumes "additionalLanguages (settings st) = a"
  shows "languages (updateLanguages st) = rev (remdups (rev (parse_additional a @ baseLanguages)))
     \<and> languages (updateLanguages st) =
         new_Set (parse_additional a) @ filter (\<lambda>b. b \<notin> set (parse_additional a)) baseLanguages
     \<and> distinct (languages (updateLanguages st))
     \<and> set (languages (updateLanguages st)) = set (parse_additional a) \<union> set baseLanguages
     \<and> parse_additional a = filter (\<lambda>e. e \<noteq> []) (map trim (split_on (CHR '','') a))
     \<and> join (CHR '','') (split_on (CHR '','') a) = a
     \<and> (\<forall>seg\<in>set (split_on (CHR '','') a).
          CHR '','' \<notin> set seg
          \<and> (trim seg = [] \<longleftrightarrow> (\<forall>c\<in>set seg. is_white c))
          \<and> (\<exists>l r. seg = l @ trim seg @ r \<and> (\<forall>c\<in>set l. is_white c) \<and> (\<forall>c\<in>set r. is_white c))
          \<and> (trim seg \<noteq> [] \<longrightarrow> \<not> is_white (hd (trim seg)) \<and> \<not> is_white (last (trim seg))))
     \<and> settings (updateLanguages st) = settings st"
proof -
  have l: "languages (updateLanguages st) = new_Set (parse_additional a @ baseLanguages)"
    using assms by (simp add: updateLanguages_def)
  have 1: "languages (updateLanguages st) = rev (remdups (rev (parse_additional a @ baseLanguages)))"
    by (simp only: l new_Set_first_occurrences)
  have 2: "languages (updateLanguages st) =
         new_Set (parse_additional a) @ filter (\<lambda>b. b \<notin> set (parse_additional a)) baseLanguages"
    by (simp only: l new_Set_append_distinct [OF distinct_baseLanguages])
  have 3: "distinct (languages (updateLanguages st))"
    by (simp only: l distinct_new_Set)
  have 4: "set (languages (updateLanguages st)) = set (parse_additional a) \<union> set baseLanguages"
    by (simp only: l set_new_Set set_append)
  have 5: "parse_additional a = filter (\<lambda>e. e \<noteq> []) (map trim (split_on (CHR '','') a))"
    by (simp add: parse_additional_def)
  have 6: "join (CHR '','') (split_on (CHR '','') a) = a"
    by (rule join_split_on)
  have 7: "\<forall>seg\<in>set (split_on (CHR '','') a).
          CHR '','' \<notin> set seg
          \<and> (trim seg = [] \<longleftrightarrow> (\<forall>c\<in>set seg. is_white c))
          \<and> (\<exists>l r. seg = l @ trim seg @ r \<and> (\<forall>c\<in>set l. is_white c) \<and> (\<forall>c\<in>set r. is_white c))
          \<and> (trim seg \<noteq> [] \<longrightarrow> \<not> is_white (hd (trim seg)) \<and> \<not> is_white (last (trim seg)))"
    using split_on_no_sep trim_Nil_iff trim_decomp trim_edges by blast
  have 8: "settings (updateLanguages st) = settings st"
    by (simp add: updateLanguages_def Let_def)
  from 1 2 3 4 5 6 7 8 show ?thesis
    by (intro conjI)
qed

theorem updateLanguages_candidates_witness:
  "languages (updateLanguages
       \<lparr>settings = \<lparr>lastUsedLanguage = [], additionalLanguages = '' mylang ,, python,  ''\<rparr>,
        languages = [], suggest_context = None, calls = []\<rparr>) =
     [''mylang'', ''python'', ''javascript'', ''java'', ''c'', ''cpp'', ''csharp'', ''ruby'',
      ''go'', ''rust'', ''swift'', ''kotlin'', ''php'', ''html'', ''css'', ''sql'', ''bash'',
      ''powershell'', ''markdown'', ''json'', ''yaml'', ''xml'', ''typescript'', ''ocaml'']"
proof -
  have e: "rev (remdups (rev (parse_additional '' mylang ,, python,  '' @ baseLanguages))) =
     [''mylang'', ''python'', ''javascript'', ''java'', ''c'', ''cpp'', ''csharp'', ''ruby'',
      ''go'', ''rust'', ''swift'', ''kotlin'', ''php'', ''html'', ''css'', ''sql'', ''bash'',
      ''powershell'', ''markdown'', ''json'', ''yaml'', ''xml'', ''typescript'', ''ocaml'']"
    by code_simp
  have h: "additionalLanguages (settings
       \<lparr>settings = \<lparr>lastUsedLanguage = [], additionalLanguages = '' mylang ,, python,  ''\<rparr>,
        languages = [], suggest_context = None, calls = []\<rparr>) = '' mylang ,, python,  ''"
    by simp
  from updateLanguages_candidates [OF h, THEN conjunct1] show ?thesis
    by (simp only: e)
qed

end
